theory Spec2Isabelle
  imports Main
begin

section \<open>Go values\<close>

text \<open>
  A Go \<^verbatim>\<open>string\<close> is a sequence of bytes: \<^typ>\<open>string\<close>, a list of 8-bit
  characters; \<^verbatim>\<open>len(s)\<close> is \<^term>\<open>length s\<close>, \<^verbatim>\<open>s[4:]\<close> is \<^term>\<open>drop 4 s\<close> and
  \<^verbatim>\<open>s[:4]\<close> is \<^term>\<open>take 4 s\<close>, both panicking when \<^verbatim>\<open>len(s) < 4\<close>.
  A Go \<^verbatim>\<open>error\<close> is \<^verbatim>\<open>nil\<close> (\<^term>\<open>None\<close>) or a value carrying the text that its
  \<^verbatim>\<open>Error()\<close> method returns. A call either panics or returns.
\<close>

type_synonym error = "string option"

datatype 'a outcome = Panics | Returns 'a

definition byte :: "char \<Rightarrow> int" where
  "byte c = of_char c"

definition is_digit :: "char \<Rightarrow> bool" where
  "is_digit c = (48 \<le> byte c \<and> byte c \<le> 57)"

definition is_upper :: "char \<Rightarrow> bool" where
  "is_upper c = (65 \<le> byte c \<and> byte c \<le> 90)"

definition is_lower :: "char \<Rightarrow> bool" where
  "is_lower c = (97 \<le> byte c \<and> byte c \<le> 122)"

subsection \<open>\<^verbatim>\<open>strconv.Itoa\<close>, \<^verbatim>\<open>strconv.Atoi\<close> and \<^verbatim>\<open>big.Int.SetString\<close> in base 10\<close>

definition digit_char :: "nat \<Rightarrow> char" where
  "digit_char d = char_of (48 + int d)"

fun nat_digits :: "nat \<Rightarrow> string" where
  "nat_digits n = (if n < 10 then [digit_char n] else nat_digits (n div 10) @ [digit_char (n mod 10)])"

declare nat_digits.simps [simp del]

definition Itoa :: "int \<Rightarrow> string" where
  "Itoa i = (if i < 0 then CHR ''-'' # nat_digits (nat (- i)) else nat_digits (nat i))"

definition digit_val :: "char \<Rightarrow> int" where
  "digit_val c = byte c - 48"

definition decimal :: "string \<Rightarrow> int" where
  "decimal ds = foldl (\<lambda>v c. 10 * v + digit_val c) 0 ds"

text \<open>
  The common core of the two parsers: an optional sign, then one or more
  decimal digits and nothing else (no underscores in an explicit base 10).
\<close>

definition parse_decimal :: "string \<Rightarrow> int option" where
  "parse_decimal s =
     (let neg = (s \<noteq> [] \<and> hd s = CHR ''-'');
          ds = (if s \<noteq> [] \<and> (hd s = CHR ''-'' \<or> hd s = CHR ''+'') then tl s else s)
      in if ds = [] \<or> \<not> list_all is_digit ds then None
         else Some (if neg then - decimal ds else decimal ds))"

text \<open>\<^verbatim>\<open>new(big.Int).SetString(mods, 10)\<close>: the value, or \<^term>\<open>None\<close> when \<^verbatim>\<open>success\<close> is false.\<close>

definition SetString :: "string \<Rightarrow> int option" where
  "SetString s = parse_decimal s"

text \<open>\<^verbatim>\<open>strconv.Atoi\<close>: a 64-bit \<^verbatim>\<open>int\<close>, or the text of the error.\<close>

definition Atoi :: "string \<Rightarrow> string + int" where
  "Atoi s =
     (case parse_decimal s of
        None \<Rightarrow> Inl (''strconv.Atoi: parsing '' @ [char_of (34::nat)] @ s @ [char_of (34::nat)] @ '': invalid syntax'')
      | Some v \<Rightarrow>
          if v < - (2 ^ 63) \<or> 2 ^ 63 \<le> v
          then Inl (''strconv.Atoi: parsing '' @ [char_of (34::nat)] @ s @ [char_of (34::nat)] @ '': value out of range'')
          else Inr v)"

section \<open>The data model\<close>

record CountrySettings =
  Length :: int
  Format :: string
  Sepa :: bool

text \<open>The pointer \<^verbatim>\<open>countrySettings\<close> is \<^term>\<open>None\<close> when nil.\<close>

record IBAN =
  code :: string
  printCode :: string
  countryCode :: string
  checkDigits :: string
  countrySettings :: "CountrySettings option"
  bban :: string

text \<open>The zero value \<^verbatim>\<open>IBAN{}\<close>.\<close>

definition IBAN_zero :: IBAN where
  "IBAN_zero = \<lparr>code = [], printCode = [], countryCode = [], checkDigits = [],
     countrySettings = None, bban = []\<rparr>"

section \<open>\<^verbatim>\<open>validateCheckDigits\<close>\<close>

text \<open>
  The body of the loop over the runes of the rearranged code. A byte below 128 is a
  rune by itself. A byte from 128 on belongs to a rune that \<^verbatim>\<open>string(c)\<close> writes
  back as bytes from 128 on, whatever the decoding; the model keeps the byte, which is
  no digit either way.
\<close>

definition expand_step :: "string \<Rightarrow> char \<Rightarrow> string" where
  "expand_step mods c =
     (let i = byte c
      in if i > 64 \<and> i < 91 then mods @ Itoa (i - 55) else mods @ [c])"

definition validateCheckDigits :: "IBAN \<Rightarrow> error outcome" where
  "validateCheckDigits i =
     (if length (code i) < 4 then Panics
      else
        let iban = drop 4 (code i) @ take 4 (code i);
            mods = foldl expand_step [] iban
        in case SetString mods of
             None \<Rightarrow> Returns (Some ''IBAN check digits validation failed'')
           | Some bigVal \<Rightarrow>
               let resVal = bigVal mod 97
               in if resVal \<noteq> 1 then Returns (Some ''IBAN has incorrect check digits'')
                  else Returns None)"

section \<open>The country table\<close>

text \<open>
  The map literal \<^verbatim>\<open>countries\<close>, entry by entry in the order of the source. A Go map
  literal cannot repeat a key, so looking a key up in the list of entries is looking it
  up in the map.
\<close>

definition countries_entries :: "(string \<times> CountrySettings) list" where
  "countries_entries =
     [(''AD'', \<lparr>Length = 24, Format = ''F04F04A12'', Sepa = False\<rparr>),
      (''AE'', \<lparr>Length = 23, Format = ''F03F16'', Sepa = False\<rparr>),
      (''AL'', \<lparr>Length = 28, Format = ''F08A16'', Sepa = False\<rparr>),
      (''AT'', \<lparr>Length = 20, Format = ''F05F11'', Sepa = True\<rparr>),
      (''AZ'', \<lparr>Length = 28, Format = ''U04A20'', Sepa = False\<rparr>),
      (''BA'', \<lparr>Length = 20, Format = ''F03F03F08F02'', Sepa = False\<rparr>),
      (''BE'', \<lparr>Length = 16, Format = ''F03F07F02'', Sepa = True\<rparr>),
      (''BG'', \<lparr>Length = 22, Format = ''U04F04F02A08'', Sepa = True\<rparr>),
      (''BH'', \<lparr>Length = 22, Format = ''U04A14'', Sepa = False\<rparr>),
      (''BR'', \<lparr>Length = 29, Format = ''F08F05F10U01A01'', Sepa = False\<rparr>),
      (''CH'', \<lparr>Length = 21, Format = ''F05A12'', Sepa = True\<rparr>),
      (''CR'', \<lparr>Length = 21, Format = ''F03F14'', Sepa = False\<rparr>),
      (''CY'', \<lparr>Length = 28, Format = ''F03F05A16'', Sepa = False\<rparr>),
      (''CZ'', \<lparr>Length = 24, Format = ''F04F06F10'', Sepa = True\<rparr>),
      (''DE'', \<lparr>Length = 22, Format = ''F08F10'', Sepa = True\<rparr>),
      (''DK'', \<lparr>Length = 18, Format = ''F04F09F01'', Sepa = True\<rparr>),
      (''DO'', \<lparr>Length = 28, Format = ''U04F20'', Sepa = False\<rparr>),
      (''EE'', \<lparr>Length = 20, Format = ''F02F02F11F01'', Sepa = True\<rparr>),
      (''ES'', \<lparr>Length = 24, Format = ''F04F04F01F01F10'', Sepa = True\<rparr>),
      (''FI'', \<lparr>Length = 18, Format = ''F06F07F01'', Sepa = True\<rparr>),
      (''FO'', \<lparr>Length = 18, Format = ''F04F09F01'', Sepa = True\<rparr>),
      (''FR'', \<lparr>Length = 27, Format = ''F05F05A11F02'', Sepa = True\<rparr>),
      (''GB'', \<lparr>Length = 22, Format = ''U04F06F08'', Sepa = True\<rparr>),
      (''GE'', \<lparr>Length = 22, Format = ''U02F16'', Sepa = False\<rparr>),
      (''GI'', \<lparr>Length = 23, Format = ''U04A15'', Sepa = True\<rparr>),
      (''GL'', \<lparr>Length = 18, Format = ''F04F09F01'', Sepa = True\<rparr>),
      (''GR'', \<lparr>Length = 27, Format = ''F03F04A16'', Sepa = True\<rparr>),
      (''GT'', \<lparr>Length = 28, Format = ''A04A20'', Sepa = False\<rparr>),
      (''HR'', \<lparr>Length = 21, Format = ''F07F10'', Sepa = False\<rparr>),
      (''HU'', \<lparr>Length = 28, Format = ''F03F04F01F15F01'', Sepa = True\<rparr>),
      (''IE'', \<lparr>Length = 22, Format = ''U04F06F08'', Sepa = True\<rparr>),
      (''IL'', \<lparr>Length = 23, Format = ''F03F03F13'', Sepa = False\<rparr>),
      (''IS'', \<lparr>Length = 26, Format = ''F04F02F06F10'', Sepa = True\<rparr>),
      (''IT'', \<lparr>Length = 27, Format = ''U01F05F05A12'', Sepa = True\<rparr>),
      (''JO'', \<lparr>Length = 30, Format = ''U04F04A18'', Sepa = False\<rparr>),
      (''KW'', \<lparr>Length = 30, Format = ''U04A22'', Sepa = False\<rparr>),
      (''KZ'', \<lparr>Length = 20, Format = ''F03A13'', Sepa = False\<rparr>),
      (''LB'', \<lparr>Length = 28, Format = ''F04A20'', Sepa = False\<rparr>),
      (''LC'', \<lparr>Length = 32, Format = ''U04A24'', Sepa = False\<rparr>),
      (''LI'', \<lparr>Length = 21, Format = ''F05A12'', Sepa = True\<rparr>),
      (''LT'', \<lparr>Length = 20, Format = ''F05F11'', Sepa = True\<rparr>),
      (''LU'', \<lparr>Length = 20, Format = ''F03A13'', Sepa = True\<rparr>),
      (''LV'', \<lparr>Length = 21, Format = ''U04A13'', Sepa = True\<rparr>),
      (''MC'', \<lparr>Length = 27, Format = ''F05F05A11F02'', Sepa = True\<rparr>),
      (''MD'', \<lparr>Length = 24, Format = ''A20'', Sepa = False\<rparr>),
      (''ME'', \<lparr>Length = 22, Format = ''F03F13F02'', Sepa = False\<rparr>),
      (''MK'', \<lparr>Length = 19, Format = ''F03A10F02'', Sepa = False\<rparr>),
      (''MR'', \<lparr>Length = 27, Format = ''F05F05F11F02'', Sepa = False\<rparr>),
      (''MT'', \<lparr>Length = 31, Format = ''U04F05A18'', Sepa = True\<rparr>),
      (''MU'', \<lparr>Length = 30, Format = ''U04F02F02F12F03U03'', Sepa = False\<rparr>),
      (''NL'', \<lparr>Length = 18, Format = ''U04F10'', Sepa = True\<rparr>),
      (''NO'', \<lparr>Length = 15, Format = ''F04F06F01'', Sepa = True\<rparr>),
      (''PK'', \<lparr>Length = 24, Format = ''U04A16'', Sepa = False\<rparr>),
      (''PL'', \<lparr>Length = 28, Format = ''F08F16'', Sepa = True\<rparr>),
      (''PS'', \<lparr>Length = 29, Format = ''U04A21'', Sepa = False\<rparr>),
      (''PT'', \<lparr>Length = 25, Format = ''F04F04F11F02'', Sepa = True\<rparr>),
      (''QA'', \<lparr>Length = 29, Format = ''U04A21'', Sepa = False\<rparr>),
      (''RO'', \<lparr>Length = 24, Format = ''U04A16'', Sepa = True\<rparr>),
      (''RS'', \<lparr>Length = 22, Format = ''F03F13F02'', Sepa = False\<rparr>),
      (''SA'', \<lparr>Length = 24, Format = ''F02A18'', Sepa = False\<rparr>),
      (''SC'', \<lparr>Length = 31, Format = ''U04F02F02F16U03'', Sepa = False\<rparr>),
      (''SE'', \<lparr>Length = 24, Format = ''F03F16F01'', Sepa = True\<rparr>),
      (''SI'', \<lparr>Length = 19, Format = ''F05F08F02'', Sepa = True\<rparr>),
      (''SK'', \<lparr>Length = 24, Format = ''F04F06F10'', Sepa = True\<rparr>),
      (''SM'', \<lparr>Length = 27, Format = ''U01F05F05A12'', Sepa = True\<rparr>),
      (''ST'', \<lparr>Length = 25, Format = ''F08F11F02'', Sepa = False\<rparr>),
      (''TL'', \<lparr>Length = 23, Format = ''F03F14F02'', Sepa = False\<rparr>),
      (''TN'', \<lparr>Length = 24, Format = ''F02F03F13F02'', Sepa = False\<rparr>),
      (''TR'', \<lparr>Length = 26, Format = ''F05A01A16'', Sepa = False\<rparr>),
      (''UA'', \<lparr>Length = 29, Format = ''F06A19'', Sepa = False\<rparr>),
      (''VG'', \<lparr>Length = 24, Format = ''U04F16'', Sepa = False\<rparr>),
      (''XK'', \<lparr>Length = 20, Format = ''F04F10F02'', Sepa = False\<rparr>)]"

definition countries :: "string \<Rightarrow> CountrySettings option" where
  "countries = map_of countries_entries"

section \<open>The regular expressions\<close>

text \<open>
  \<^verbatim>\<open>frx.FindAllString(format, -1)\<close> for \<^verbatim>\<open>[ABCFLUW]\d{2}\<close>: the matches from left to
  right, none overlapping; a byte that starts no match is passed over.
\<close>

definition is_tag :: "char \<Rightarrow> bool" where
  "is_tag c = (c \<in> set ''ABCFLUW'')"

fun FindAllString_format :: "string \<Rightarrow> string list" where
  "FindAllString_format (a # b # c # s) =
     (if is_tag a \<and> is_digit b \<and> is_digit c then [a, b, c] # FindAllString_format s
      else FindAllString_format (b # c # s))"
| "FindAllString_format s = []"

text \<open>
  The pattern \<^verbatim>\<open>bbr\<close> is built from two kinds of text only: a bracketed class of byte
  ranges such as \<^verbatim>\<open>[0-9A-Za-z]\<close>, and a repeat \<^verbatim>\<open>{n}\<close>. The model keeps the pieces in
  the order the code appends them.
\<close>

type_synonym char_class = "(char \<times> char) list"

datatype piece = Class char_class | Repeat int

text \<open>The \<^verbatim>\<open>switch ps[:1]\<close>; it has no default, so another tag appends nothing.\<close>

definition tag_class :: "string \<Rightarrow> piece list" where
  "tag_class t =
     (if t = ''F'' then [Class [(CHR ''0'', CHR ''9'')]]
      else if t = ''L'' then [Class [(CHR ''a'', CHR ''z'')]]
      else if t = ''U'' then [Class [(CHR ''A'', CHR ''Z'')]]
      else if t = ''A'' then [Class [(CHR ''0'', CHR ''9''), (CHR ''A'', CHR ''Z''), (CHR ''a'', CHR ''z'')]]
      else if t = ''B'' then [Class [(CHR ''0'', CHR ''9''), (CHR ''A'', CHR ''Z'')]]
      else if t = ''C'' then [Class [(CHR ''A'', CHR ''Z''), (CHR ''a'', CHR ''z'')]]
      else if t = ''W'' then [Class [(CHR ''0'', CHR ''9''), (CHR ''a'', CHR ''z'')]]
      else [])"

text \<open>The loop over \<^verbatim>\<open>fps\<close>: the pattern built so far, or the text of \<^verbatim>\<open>atoiErr\<close>.\<close>

fun bbr_loop :: "piece list \<Rightarrow> string list \<Rightarrow> string + piece list" where
  "bbr_loop bbr [] = Inr bbr"
| "bbr_loop bbr (ps # fps) =
     (case Atoi (drop 1 ps) of
        Inl atoiErr \<Rightarrow> Inl atoiErr
      | Inr repeat \<Rightarrow> bbr_loop (bbr @ tag_class (take 1 ps) @ [Repeat repeat]) fps)"

text \<open>
  The text of the pattern, as the code writes it: \<^verbatim>\<open>[0-9A-Za-z]\<close> for a class and
  \<^verbatim>\<open>fmt.Sprintf("{%d}", repeat)\<close> for a repeat. The library quotes it in its errors.
\<close>

definition class_text :: "char_class \<Rightarrow> string" where
  "class_text r = ''['' @ concat (map (\<lambda>(lo, hi). [lo, CHR ''-'', hi]) r) @ '']''"

fun piece_text :: "piece \<Rightarrow> string" where
  "piece_text (Class r) = class_text r"
| "piece_text (Repeat n) = ''{'' @ Itoa n @ ''}''"

definition pattern_text :: "piece list \<Rightarrow> string" where
  "pattern_text bbr = concat (map piece_text bbr)"

text \<open>
  \<^verbatim>\<open>regexp.Compile(bbr)\<close> on such a pattern, in two steps. First the syntax: a sequence
  of classes, each with the number of times it repeats. A repeat needs a class before
  it, and the library takes counts up to 1000. (The loop above only writes a class and
  then a count from 0 to 99; a negative count, which the library would read as literal
  text, is not parsed by the model.)
\<close>

type_synonym regexp = "(char_class \<times> nat) list"

fun parse_pieces :: "piece list \<Rightarrow> string + regexp" where
  "parse_pieces [] = Inr []"
| "parse_pieces (Class r # Repeat n # ps) =
     (if 0 \<le> n \<and> n \<le> 1000
      then (case parse_pieces ps of Inl e \<Rightarrow> Inl e | Inr re \<Rightarrow> Inr ((r, nat n) # re))
      else Inl (''invalid repeat count: `'' @ piece_text (Repeat n) @ ''`''))"
| "parse_pieces (Class r # ps) =
     (case parse_pieces ps of Inl e \<Rightarrow> Inl e | Inr re \<Rightarrow> Inr ((r, 1) # re))"
| "parse_pieces (Repeat n # ps) =
     Inl (''missing argument to repetition operator: `'' @ piece_text (Repeat n) @ ''`'')"

text \<open>
  Then the size. The library, in its current versions, bounds the size of the program
  a pattern compiles to: \<^verbatim>\<open>maxSize = 128 << 20 / instSize\<close> instructions with
  \<^verbatim>\<open>instSize = 5 * 8\<close>, that is 3355443. It counts a class as 1, a class repeated \<^verbatim>\<open>n\<close>
  times as \<^verbatim>\<open>n\<close> and at least 1, a sequence as the sum of its items, and the whole
  pattern as at least 1; a pattern above the bound is refused as too large, with the
  whole pattern quoted. (The library also bounds the number of runes in the classes,
  33554432, and the nesting, 1000; a pattern of these pieces within the size bound is
  within both.)
\<close>

definition maxSize :: int where
  "maxSize = 128 * 2 ^ 20 div (5 * 8)"

definition regexp_size :: "regexp \<Rightarrow> int" where
  "regexp_size re = max 1 (sum_list (map (\<lambda>(r, n). max 1 (int n)) re))"

definition regexp_Compile :: "piece list \<Rightarrow> string + regexp" where
  "regexp_Compile bbr =
     (case parse_pieces bbr of
        Inl e \<Rightarrow> Inl (''error parsing regexp: '' @ e)
      | Inr re \<Rightarrow>
          if regexp_size re > maxSize
          then Inl (''error parsing regexp: expression too large: `'' @ pattern_text bbr @ ''`'')
          else Inr re)"

definition class_has :: "char_class \<Rightarrow> char \<Rightarrow> bool" where
  "class_has r c = list_ex (\<lambda>(lo, hi). byte lo \<le> byte c \<and> byte c \<le> byte hi) r"

text \<open>A match that starts at the head of the text.\<close>

fun match_here :: "regexp \<Rightarrow> string \<Rightarrow> bool" where
  "match_here [] s = True"
| "match_here ((r, n) # re) s =
     (n \<le> length s \<and> list_all (class_has r) (take n s) \<and> match_here re (drop n s))"

text \<open>
  \<^verbatim>\<open>MatchString\<close>: the pattern has no \<^verbatim>\<open>^\<close> and no \<^verbatim>\<open>$\<close>, so a match may start at any
  position of the text and end before its end.
\<close>

fun MatchString :: "regexp \<Rightarrow> string \<Rightarrow> bool" where
  "MatchString re [] = match_here re []"
| "MatchString re (c # s) = (match_here re (c # s) \<or> MatchString re s)"

section \<open>\<^verbatim>\<open>validateBban\<close>\<close>

text \<open>
  \<^verbatim>\<open>regexp.Compile\<close> of the constant pattern \<^verbatim>\<open>[ABCFLUW]\d{2}\<close> succeeds, so its error
  branch is left out. Reading \<^verbatim>\<open>i.countrySettings.Format\<close> through a nil pointer panics.
\<close>

definition validateBban :: "IBAN \<Rightarrow> error outcome" where
  "validateBban i =
     (case countrySettings i of
        None \<Rightarrow> Panics
      | Some cs \<Rightarrow>
          let format = Format cs;
              fps = FindAllString_format format
          in case bbr_loop [] fps of
               Inl atoiErr \<Rightarrow> Returns (Some (''Failed to validate bban: '' @ atoiErr))
             | Inr bbr \<Rightarrow>
                 (case regexp_Compile bbr of
                    Inl err \<Rightarrow> Returns (Some (''Failed to validate bban: '' @ err))
                  | Inr bbrx \<Rightarrow>
                      if \<not> MatchString bbrx (bban i)
                      then Returns (Some ''bban part of IBAN is not formatted according to country specification'')
                      else Returns None))"

section \<open>\<^verbatim>\<open>Validate\<close> and \<^verbatim>\<open>PrintCode\<close>\<close>

definition Validate :: "IBAN \<Rightarrow> error outcome" where
  "Validate i =
     (case validateBban i of
        Panics \<Rightarrow> Panics
      | Returns err1 \<Rightarrow>
          (case validateCheckDigits i of
             Panics \<Rightarrow> Panics
           | Returns err2 \<Rightarrow>
               let err = [];
                   err = (case err1 of None \<Rightarrow> err | Some e1 \<Rightarrow> err @ e1);
                   err = (case err2 of None \<Rightarrow> err | Some e2 \<Rightarrow> err @ e2)
               in Returns (Some err)))"

definition PrintCode :: "IBAN \<Rightarrow> string" where
  "PrintCode i = printCode i"

section \<open>\<^verbatim>\<open>NewIBAN\<close>\<close>

text \<open>\<^verbatim>\<open>strings.Replace(s, " ", "", -1)\<close>.\<close>

definition Replace_spaces :: "string \<Rightarrow> string" where
  "Replace_spaces s = filter (\<lambda>c. c \<noteq> CHR '' '') s"

text \<open>
  \<^verbatim>\<open>strings.ToUpper\<close>. The letters a to z become A to Z. Outside ASCII the library maps
  rune by rune, and two runes have an ASCII upper case: U+0131 (bytes C4 B1) becomes I
  and U+017F (bytes C5 BF) becomes S. Every other byte from 128 on belongs to a rune
  that the library writes as bytes from 128 on; the model keeps the byte as it is, which
  the character gate below rejects alike.
\<close>

definition upper_byte :: "char \<Rightarrow> char" where
  "upper_byte c = (if is_lower c then char_of (byte c - 32) else c)"

fun ToUpper :: "string \<Rightarrow> string" where
  "ToUpper (c # d # s) =
     (if byte c = 196 \<and> byte d = 177 then CHR ''I'' # ToUpper s
      else if byte c = 197 \<and> byte d = 191 then CHR ''S'' # ToUpper s
      else upper_byte c # ToUpper (d # s))"
| "ToUpper [c] = [upper_byte c]"
| "ToUpper [] = []"

text \<open>\<^verbatim>\<open>^[0-9A-Z]*$\<close> with \<^verbatim>\<open>MatchString\<close>: every byte of the text is in the class.\<close>

definition gate_char :: "char \<Rightarrow> bool" where
  "gate_char c = (is_digit c \<or> is_upper c)"

definition gate :: "string \<Rightarrow> bool" where
  "gate s = list_all gate_char s"

text \<open>
  \<^verbatim>\<open>^\D\D\d\d\<close> with \<^verbatim>\<open>FindString\<close>: the first four bytes when they match, the empty
  string otherwise. It is applied to text that passed the gate, where a rune is a byte.
\<close>

definition FindString_header :: "string \<Rightarrow> string" where
  "FindString_header s =
     (case s of
        a # b # c # d # _ \<Rightarrow>
          if \<not> is_digit a \<and> \<not> is_digit b \<and> is_digit c \<and> is_digit d then [a, b, c, d] else []
      | _ \<Rightarrow> [])"

text \<open>The loop that writes the print code in groups of four.\<close>

function print_loop :: "string \<Rightarrow> string \<Rightarrow> string" where
  "print_loop prc s =
     (if length s > 4 then print_loop (prc @ take 4 s @ '' '') (drop 4 s) else prc @ s)"
  by pat_completeness auto
termination
  by (relation "measure (\<lambda>(prc, s). length s)") auto

declare print_loop.simps [simp del]

text \<open>
  The result is the pair of the pointer (\<^term>\<open>None\<close> for nil) and the error. The two
  constant patterns compile, so their error branches are left out.
\<close>

definition NewIBAN :: "string \<Rightarrow> (IBAN option \<times> error) outcome" where
  "NewIBAN s0 =
     (let iban = IBAN_zero;
          s = ToUpper (Replace_spaces s0);
          iban = iban\<lparr>code := s\<rparr>
      in if \<not> gate s
         then Returns (None, Some ''IBAN can contain only alphanumeric characters'')
         else
           let hs = FindString_header s
           in if hs = []
              then Returns (None, Some ''IBAN must start with country code (2 characters) and check digits (2 digits)'')
              else if length hs < 4 then Panics
              else
                let iban = iban\<lparr>countryCode := take 2 hs\<rparr>;
                    iban = iban\<lparr>checkDigits := take 2 (drop 2 hs)\<rparr>
                in case countries (countryCode iban) of
                     None \<Rightarrow> Returns (None, Some (''Unsupported country code '' @ countryCode iban))
                   | Some cs \<Rightarrow>
                       let iban = iban\<lparr>countrySettings := Some cs\<rparr>
                       in if int (length s) \<noteq> Length cs
                          then Returns (None, Some (''IBAN length '' @ Itoa (int (length s))
                                 @ '' does not match length '' @ Itoa (Length cs)
                                 @ '' specified for country code '' @ countryCode iban))
                          else if length s < 4 then Panics
                          else
                            let iban = iban\<lparr>bban := drop 4 s\<rparr>
                            in case validateBban iban of
                                 Panics \<Rightarrow> Panics
                               | Returns (Some err) \<Rightarrow> Returns (None, Some err)
                               | Returns None \<Rightarrow>
                                   (case validateCheckDigits iban of
                                      Panics \<Rightarrow> Panics
                                    | Returns (Some err) \<Rightarrow> Returns (None, Some err)
                                    | Returns None \<Rightarrow>
                                        Returns (Some (iban\<lparr>printCode := print_loop [] s\<rparr>), None)))"

section \<open>The properties in the words of the specification\<close>

text \<open>
  The numeral of the checksum: every letter stands for the two decimal digits of its
  code point minus 55, every digit for itself.
\<close>

definition numeral_step :: "int \<Rightarrow> char \<Rightarrow> int" where
  "numeral_step v c = (if is_upper c then 100 * v + (byte c - 55) else 10 * v + (byte c - 48))"

definition spec_numeral :: "string \<Rightarrow> int" where
  "spec_numeral s = foldl numeral_step 0 s"

text \<open>The character class of each tag, from the table of the layout compiler.\<close>

definition spec_class :: "char \<Rightarrow> char \<Rightarrow> bool" where
  "spec_class t c =
     (if t = CHR ''F'' then is_digit c
      else if t = CHR ''L'' then is_lower c
      else if t = CHR ''U'' then is_upper c
      else if t = CHR ''A'' then is_digit c \<or> is_upper c \<or> is_lower c
      else if t = CHR ''B'' then is_digit c \<or> is_upper c
      else if t = CHR ''C'' then is_upper c \<or> is_lower c
      else if t = CHR ''W'' then is_digit c \<or> is_lower c
      else False)"

text \<open>
  A layout is a sequence of pairs of a tag and a repeat count. A text is exactly the
  layout when it is the concatenation, in order, of count characters of each class, with
  nothing before, between or after.
\<close>

type_synonym layout = "(char \<times> nat) list"

fun exact_layout :: "layout \<Rightarrow> string \<Rightarrow> bool" where
  "exact_layout [] s = (s = [])"
| "exact_layout ((t, n) # l) s =
     (n \<le> length s \<and> list_all (spec_class t) (take n s) \<and> exact_layout l (drop n s))"

text \<open>
  The grammar of a descriptor: a concatenation of tokens, each one tag character from
  F, L, U, A, B, C, W followed by a repeat count of two decimal digits. A descriptor
  outside the grammar has no layout.
\<close>

definition spec_tag :: "char \<Rightarrow> bool" where
  "spec_tag t = (t \<in> {CHR ''F'', CHR ''L'', CHR ''U'', CHR ''A'', CHR ''B'', CHR ''C'', CHR ''W''})"

fun spec_layout :: "string \<Rightarrow> layout option" where
  "spec_layout [] = Some []"
| "spec_layout (t # a # b # s) =
     (if spec_tag t \<and> is_digit a \<and> is_digit b
      then map_option ((#) (t, nat (10 * (byte a - 48) + (byte b - 48)))) (spec_layout s)
      else None)"
| "spec_layout s = None"

text \<open>
  The layout that the tokens found in a descriptor stand for, the sum of its counts,
  and the size of its pattern as the regexp library counts it.
\<close>

definition layout_of :: "string \<Rightarrow> layout" where
  "layout_of format = map (\<lambda>ps. (hd ps, nat (decimal (tl ps)))) (FindAllString_format format)"

definition repeat_sum :: "layout \<Rightarrow> int" where
  "repeat_sum l = sum_list (map (\<lambda>(t, n). int n) l)"

definition layout_size :: "layout \<Rightarrow> int" where
  "layout_size l = max 1 (sum_list (map (\<lambda>(t, n). max 1 (int n)) l))"

section \<open>Decimal text\<close>

lemma byte_digit_char: "d < 10 \<Longrightarrow> byte (digit_char d) = 48 + int d"
  by (simp add: byte_def digit_char_def)

lemma is_digit_digit_char: "d < 10 \<Longrightarrow> is_digit (digit_char d)"
  by (simp add: is_digit_def byte_digit_char)

lemma digit_val_digit_char: "d < 10 \<Longrightarrow> digit_val (digit_char d) = int d"
  by (simp add: digit_val_def byte_digit_char)

lemma Itoa_two: "10 \<le> i \<Longrightarrow> i < 100 \<Longrightarrow> Itoa i = [digit_char (nat i div 10), digit_char (nat i mod 10)]"
proof -
  assume a: "10 \<le> i" "i < 100"
  then have "\<not> nat i < 10" "nat i div 10 < 10" by auto
  then show ?thesis using a
    by (simp add: Itoa_def nat_digits.simps[of "nat i"] nat_digits.simps[of "nat i div 10"])
qed

lemma decimal_snoc: "decimal (ds @ [c]) = 10 * decimal ds + digit_val c"
  by (simp add: decimal_def)

lemma decimal_snoc2: "decimal (ds @ [a, b]) = 100 * decimal ds + 10 * digit_val a + digit_val b"
  by (simp add: decimal_def)

lemma expand_step_digits:
  assumes "gate_char c" "list_all is_digit mods"
  shows "list_all is_digit (expand_step mods c) \<and>
         decimal (expand_step mods c) = numeral_step (decimal mods) c"
proof (cases "is_upper c")
  case True
  then have r: "10 \<le> byte c - 55" "byte c - 55 < 100" by (auto simp: is_upper_def)
  have d: "nat (byte c - 55) div 10 < 10" "nat (byte c - 55) mod 10 < 10" using r by auto
  have e: "expand_step mods c = mods @ [digit_char (nat (byte c - 55) div 10), digit_char (nat (byte c - 55) mod 10)]"
    using True r by (simp add: expand_step_def Let_def is_upper_def Itoa_two)
  have "int (nat (byte c - 55) div 10) * 10 + int (nat (byte c - 55) mod 10) = byte c - 55"
    using r by (simp add: zdiv_int zmod_int)
  then show ?thesis using True assms(2) d
    by (simp add: e decimal_snoc2 digit_val_digit_char is_digit_digit_char numeral_step_def)
next
  case False
  then have "is_digit c" using assms(1) by (simp add: gate_char_def)
  then show ?thesis using False assms(2)
    by (auto simp: expand_step_def Let_def is_upper_def is_digit_def decimal_snoc numeral_step_def digit_val_def)
qed

lemma expand_loop_digits:
  "list_all gate_char s \<Longrightarrow> list_all is_digit mods \<Longrightarrow>
   list_all is_digit (foldl expand_step mods s) \<and>
   decimal (foldl expand_step mods s) = foldl numeral_step (decimal mods) s"
proof (induction s arbitrary: mods)
  case Nil
  then show ?case by simp
next
  case (Cons c s)
  from Cons.prems have c: "gate_char c" and s: "list_all gate_char s" by simp_all
  from expand_step_digits[OF c Cons.prems(2)] Cons.IH[OF s, of "expand_step mods c"]
  show ?case by simp
qed

lemma expand_loop_length: "length mods + length s \<le> length (foldl expand_step mods s)"
proof (induction s arbitrary: mods)
  case Nil
  show ?case by simp
next
  case (Cons c s)
  have "length mods + 1 \<le> length (expand_step mods c)"
    by (cases "byte c > 64 \<and> byte c < 91") (auto simp: expand_step_def Let_def Itoa_two)
  with Cons[of "expand_step mods c"] show ?case by simp
qed

lemma parse_decimal_digits:
  "ds \<noteq> [] \<Longrightarrow> list_all is_digit ds \<Longrightarrow> parse_decimal ds = Some (decimal ds)"
  by (cases ds) (auto simp: parse_decimal_def Let_def is_digit_def byte_def)

section \<open>The pattern built from a layout\<close>

lemma FindAllString_format_tokens:
  "ps \<in> set (FindAllString_format format) \<Longrightarrow>
   \<exists>a b c. ps = [a, b, c] \<and> is_tag a \<and> is_digit b \<and> is_digit c"
  by (induction format rule: FindAllString_format.induct) (auto split: if_splits)

lemma decimal_two: "decimal [b, c] = 10 * digit_val b + digit_val c"
  by (simp add: decimal_def)

lemma Atoi_two_digits:
  assumes "is_digit b" "is_digit c"
  shows "Atoi [b, c] = Inr (decimal [b, c])" and "0 \<le> decimal [b, c]" and "decimal [b, c] \<le> 99"
proof -
  have bc: "b \<noteq> CHR ''-''" "b \<noteq> CHR ''+''"
    using assms(1) by (auto simp: is_digit_def byte_def)
  have p: "parse_decimal [b, c] = Some (decimal [b, c])"
    using assms bc by (simp add: parse_decimal_def Let_def)
  show r: "0 \<le> decimal [b, c]" "decimal [b, c] \<le> 99"
    using assms by (auto simp: decimal_two digit_val_def is_digit_def)
  then show "Atoi [b, c] = Inr (decimal [b, c])"
    by (simp add: Atoi_def p)
qed

lemma tag_class_spec:
  "is_tag a \<Longrightarrow> \<exists>r. tag_class [a] = [Class r] \<and> (\<forall>c. class_has r c = spec_class a c)"
  by (auto simp: is_tag_def tag_class_def class_has_def spec_class_def is_digit_def is_upper_def
      is_lower_def byte_def)

lemma bbr_loop_compiles:
  "(\<And>ps. ps \<in> set fps \<Longrightarrow> \<exists>a b c. ps = [a, b, c] \<and> is_tag a \<and> is_digit b \<and> is_digit c) \<Longrightarrow>
   \<exists>bbr re. bbr_loop acc fps = Inr (acc @ bbr) \<and> parse_pieces bbr = Inr re \<and>
     list_all2 (\<lambda>x y. snd x = snd y \<and> (\<forall>c. class_has (fst x) c = spec_class (fst y) c)) re
       (map (\<lambda>ps. (hd ps, nat (decimal (tl ps)))) fps)"
proof (induction fps arbitrary: acc)
  case Nil
  show ?case by simp
next
  case (Cons ps fps)
  from Cons.prems[of ps] obtain a b c where ps: "ps = [a, b, c]"
    and t: "is_tag a" and d: "is_digit b" "is_digit c" by auto
  from tag_class_spec[OF t] obtain r where r: "tag_class [a] = [Class r]"
    and rc: "\<forall>c. class_has r c = spec_class a c" by blast
  note at = Atoi_two_digits[OF d]
  from Cons.IH[of "acc @ [Class r, Repeat (decimal [b, c])]"] Cons.prems
  obtain bbr re where
    l: "bbr_loop (acc @ [Class r, Repeat (decimal [b, c])]) fps
          = Inr ((acc @ [Class r, Repeat (decimal [b, c])]) @ bbr)"
    and cmp: "parse_pieces bbr = Inr re"
    and rel: "list_all2 (\<lambda>x y. snd x = snd y \<and> (\<forall>c. class_has (fst x) c = spec_class (fst y) c)) re
       (map (\<lambda>ps. (hd ps, nat (decimal (tl ps)))) fps)"
    by auto
  have 1: "bbr_loop acc (ps # fps) = Inr (acc @ (Class r # Repeat (decimal [b, c]) # bbr))"
    using l by (simp add: ps at(1) r)
  have 2: "parse_pieces (Class r # Repeat (decimal [b, c]) # bbr) = Inr ((r, nat (decimal [b, c])) # re)"
    using at(2,3) cmp by simp
  have 3: "list_all2 (\<lambda>x y. snd x = snd y \<and> (\<forall>c. class_has (fst x) c = spec_class (fst y) c))
      ((r, nat (decimal [b, c])) # re) (map (\<lambda>ps. (hd ps, nat (decimal (tl ps)))) (ps # fps))"
    using rel rc by (simp add: ps)
  from 1 2 3 show ?case by blast
qed

lemma match_here_exact:
  "list_all2 (\<lambda>x y. snd x = snd y \<and> (\<forall>c. class_has (fst x) c = spec_class (fst y) c)) re l \<Longrightarrow>
   match_here re s \<longleftrightarrow> (\<exists>mid post. s = mid @ post \<and> exact_layout l mid)"
proof (induction re l arbitrary: s rule: list_all2_induct)
  case Nil
  show ?case by simp
next
  case (Cons x re y l)
  obtain r n where x: "x = (r, n)" by (cases x)
  obtain t m where y: "y = (t, m)" by (cases y)
  from Cons.hyps(1) have nm: "n = m" and cl: "class_has r = spec_class t"
    by (auto simp: x y)
  show ?case
  proof
    assume "match_here (x # re) s"
    then have a: "n \<le> length s" "list_all (spec_class t) (take n s)" "match_here re (drop n s)"
      by (simp_all add: x cl)
    from a(3) Cons.IH obtain mid post where mp: "drop n s = mid @ post" "exact_layout l mid" by blast
    have "s = (take n s @ mid) @ post" using mp(1) by (metis append_assoc append_take_drop_id)
    moreover have "exact_layout (y # l) (take n s @ mid)"
      using a mp(2) by (simp add: y nm)
    ultimately show "\<exists>mid post. s = mid @ post \<and> exact_layout (y # l) mid" by blast
  next
    assume "\<exists>mid post. s = mid @ post \<and> exact_layout (y # l) mid"
    then obtain mid post where mp: "s = mid @ post" "exact_layout (y # l) mid" by blast
    from mp(2) have e: "m \<le> length mid" "list_all (spec_class t) (take m mid)" "exact_layout l (drop m mid)"
      by (simp_all add: y)
    have "drop n s = drop m mid @ post" using e(1) by (simp add: mp(1) nm)
    with e(3) Cons.IH have "match_here re (drop n s)" by blast
    then show "match_here (x # re) s" using e by (simp add: x cl nm mp(1))
  qed
qed

lemma MatchString_anywhere:
  "MatchString re s \<longleftrightarrow> (\<exists>pre rest. s = pre @ rest \<and> match_here re rest)"
proof (induction s)
  case Nil
  show ?case by simp
next
  case (Cons c s)
  show ?case
  proof
    assume "MatchString re (c # s)"
    then consider "match_here re (c # s)" | "MatchString re s" by auto
    then show "\<exists>pre rest. c # s = pre @ rest \<and> match_here re rest"
    proof cases
      case 1
      then show ?thesis by (metis append_Nil)
    next
      case 2
      with Cons.IH obtain pre rest where "s = pre @ rest" "match_here re rest" by blast
      then show ?thesis by (metis append_Cons)
    qed
  next
    assume "\<exists>pre rest. c # s = pre @ rest \<and> match_here re rest"
    then obtain pre rest where pr: "c # s = pre @ rest" "match_here re rest" by blast
    show "MatchString re (c # s)"
    proof (cases pre)
      case Nil
      then have "match_here re (c # s)" using pr by simp
      then show ?thesis by simp
    next
      case (Cons p pre')
      then have "s = pre' @ rest" using pr(1) by simp
      with pr(2) Cons.IH show ?thesis by auto
    qed
  qed
qed

lemma exact_layout_length: "exact_layout l s \<Longrightarrow> int (length s) = repeat_sum l"
proof (induction l arbitrary: s)
  case Nil
  then show ?case by (simp add: repeat_sum_def)
next
  case (Cons y l)
  obtain t m where y: "y = (t, m)" by (cases y)
  from Cons.prems have "m \<le> length s" "exact_layout l (drop m s)" by (simp_all add: y)
  with Cons.IH[of "drop m s"] show ?case by (simp add: y repeat_sum_def)
qed

section \<open>The check digits\<close>

lemma expanded_numeral:
  assumes "s \<noteq> []" "gate s"
  shows "SetString (foldl expand_step [] s) = Some (spec_numeral s)"
proof -
  from assms(2) have g: "list_all gate_char s" by (simp add: gate_def)
  from expand_loop_digits[OF g, of "[]"]
  have d: "list_all is_digit (foldl expand_step [] s)"
    and v: "decimal (foldl expand_step [] s) = spec_numeral s"
    by (simp_all add: spec_numeral_def decimal_def)
  from expand_loop_length[of "[]" s] assms(1) have "foldl expand_step [] s \<noteq> []"
    by (cases s) auto
  from parse_decimal_digits[OF this d] v show ?thesis by (simp add: SetString_def)
qed

lemma rearranged_gate:
  "4 \<le> length s \<Longrightarrow> gate s \<Longrightarrow> drop 4 s @ take 4 s \<noteq> [] \<and> gate (drop 4 s @ take 4 s)"
proof -
  assume l: "4 \<le> length s" and g: "gate s"
  have "set (drop 4 s) \<subseteq> set s" "set (take 4 s) \<subseteq> set s"
    by (simp_all add: set_drop_subset set_take_subset)
  then have "gate (drop 4 s @ take 4 s)" using g by (auto simp: gate_def list_all_iff)
  moreover have "take 4 s \<noteq> []" using l by (cases s) auto
  ultimately show ?thesis by simp
qed

text \<open>
  Claim C2. For a code of at least 4 characters, all in 0-9 and A-Z,
  \<^verbatim>\<open>validateCheckDigits\<close> returns no error exactly when the numeral of the code with its
  first four characters moved to the end (every letter read as its code point minus 55,
  in two digits) is 1 modulo 97, and returns the incorrect-check-digits error for every
  other remainder.
\<close>

theorem validateCheckDigits_mod_97:
  assumes "4 \<le> length (code i)" and "gate (code i)"
  shows "(validateCheckDigits i = Returns None
            \<longleftrightarrow> spec_numeral (drop 4 (code i) @ take 4 (code i)) mod 97 = 1)
       \<and> (validateCheckDigits i = Returns (Some ''IBAN has incorrect check digits'')
            \<longleftrightarrow> spec_numeral (drop 4 (code i) @ take 4 (code i)) mod 97 \<noteq> 1)"
proof -
  from rearranged_gate[OF assms] expanded_numeral
  have "SetString (foldl expand_step [] (drop 4 (code i) @ take 4 (code i)))
          = Some (spec_numeral (drop 4 (code i) @ take 4 (code i)))" by blast
  then show ?thesis using assms(1) by (simp add: validateCheckDigits_def Let_def)
qed

theorem validateCheckDigits_mod_97_witness:
  "4 \<le> length (code (IBAN_zero\<lparr>code := ''GB82WEST12345698765432''\<rparr>))
   \<and> gate (code (IBAN_zero\<lparr>code := ''GB82WEST12345698765432''\<rparr>))
   \<and> validateCheckDigits (IBAN_zero\<lparr>code := ''GB82WEST12345698765432''\<rparr>) = Returns None
   \<and> spec_numeral (drop 4 ''GB82WEST12345698765432'' @ take 4 ''GB82WEST12345698765432'') mod 97 = 1
   \<and> 4 \<le> length (code (IBAN_zero\<lparr>code := ''GB82WEST12345698765433''\<rparr>))
   \<and> gate (code (IBAN_zero\<lparr>code := ''GB82WEST12345698765433''\<rparr>))
   \<and> validateCheckDigits (IBAN_zero\<lparr>code := ''GB82WEST12345698765433''\<rparr>)
       = Returns (Some ''IBAN has incorrect check digits'')"
proof -
  have l: "4 \<le> length (code (IBAN_zero\<lparr>code := ''GB82WEST12345698765432''\<rparr>))"
    by (simp add: IBAN_zero_def)
  have g: "gate (code (IBAN_zero\<lparr>code := ''GB82WEST12345698765432''\<rparr>))"
    by code_simp
  have n: "spec_numeral (drop 4 ''GB82WEST12345698765432'' @ take 4 ''GB82WEST12345698765432'') mod 97 = 1"
    by code_simp
  have l': "4 \<le> length (code (IBAN_zero\<lparr>code := ''GB82WEST12345698765433''\<rparr>))"
    by (simp add: IBAN_zero_def)
  have g': "gate (code (IBAN_zero\<lparr>code := ''GB82WEST12345698765433''\<rparr>))"
    by code_simp
  have n': "spec_numeral (drop 4 ''GB82WEST12345698765433'' @ take 4 ''GB82WEST12345698765433'') mod 97 \<noteq> 1"
    by code_simp
  from validateCheckDigits_mod_97[OF l g] n
  have v: "validateCheckDigits (IBAN_zero\<lparr>code := ''GB82WEST12345698765432''\<rparr>) = Returns None"
    by (simp add: IBAN_zero_def)
  from validateCheckDigits_mod_97[OF l' g'] n'
  have v': "validateCheckDigits (IBAN_zero\<lparr>code := ''GB82WEST12345698765433''\<rparr>)
       = Returns (Some ''IBAN has incorrect check digits'')"
    by (simp add: IBAN_zero_def)
  from l g v n l' g' v' show ?thesis by (intro conjI)
qed

text \<open>
  Claim C9. For a code of at least 4 characters \<^verbatim>\<open>validateCheckDigits\<close> does not panic.
  When the characters are all in 0-9 and A-Z the expanded text parses as a decimal
  number, so the error of the failed parse is not returned; and whenever the parse does
  fail, the function returns that error.
\<close>

theorem validateCheckDigits_parse_never_fails:
  assumes "4 \<le> length (code i)"
  shows "validateCheckDigits i \<noteq> Panics
       \<and> (gate (code i) \<longrightarrow>
            SetString (foldl expand_step [] (drop 4 (code i) @ take 4 (code i))) \<noteq> None
            \<and> validateCheckDigits i \<noteq> Returns (Some ''IBAN check digits validation failed''))
       \<and> (SetString (foldl expand_step [] (drop 4 (code i) @ take 4 (code i))) = None \<longrightarrow>
            validateCheckDigits i = Returns (Some ''IBAN check digits validation failed''))"
proof (intro conjI impI)
  show "validateCheckDigits i \<noteq> Panics"
    using assms by (simp add: validateCheckDigits_def Let_def split: option.split)
next
  assume g: "gate (code i)"
  from rearranged_gate[OF assms g] expanded_numeral
  have s: "SetString (foldl expand_step [] (drop 4 (code i) @ take 4 (code i)))
          = Some (spec_numeral (drop 4 (code i) @ take 4 (code i)))" by blast
  then show "SetString (foldl expand_step [] (drop 4 (code i) @ take 4 (code i))) \<noteq> None" by simp
  from s show "validateCheckDigits i \<noteq> Returns (Some ''IBAN check digits validation failed'')"
    using assms by (simp add: validateCheckDigits_def Let_def)
next
  assume "SetString (foldl expand_step [] (drop 4 (code i) @ take 4 (code i))) = None"
  then show "validateCheckDigits i = Returns (Some ''IBAN check digits validation failed'')"
    using assms by (simp add: validateCheckDigits_def Let_def)
qed

theorem validateCheckDigits_parse_never_fails_witness:
  "4 \<le> length (code (IBAN_zero\<lparr>code := ''DE89370400440532013000''\<rparr>))
   \<and> gate (code (IBAN_zero\<lparr>code := ''DE89370400440532013000''\<rparr>))
   \<and> validateCheckDigits (IBAN_zero\<lparr>code := ''DE89370400440532013000''\<rparr>) \<noteq> Panics
   \<and> SetString (foldl expand_step []
        (drop 4 (code (IBAN_zero\<lparr>code := ''DE89370400440532013000''\<rparr>))
         @ take 4 (code (IBAN_zero\<lparr>code := ''DE89370400440532013000''\<rparr>)))) \<noteq> None
   \<and> validateCheckDigits (IBAN_zero\<lparr>code := ''DE89370400440532013000''\<rparr>)
        \<noteq> Returns (Some ''IBAN check digits validation failed'')
   \<and> 4 \<le> length (code (IBAN_zero\<lparr>code := ''DE89.3704''\<rparr>))
   \<and> SetString (foldl expand_step []
        (drop 4 (code (IBAN_zero\<lparr>code := ''DE89.3704''\<rparr>))
         @ take 4 (code (IBAN_zero\<lparr>code := ''DE89.3704''\<rparr>)))) = None
   \<and> validateCheckDigits (IBAN_zero\<lparr>code := ''DE89.3704''\<rparr>)
        = Returns (Some ''IBAN check digits validation failed'')"
proof -
  have l: "4 \<le> length (code (IBAN_zero\<lparr>code := ''DE89370400440532013000''\<rparr>))"
    by (simp add: IBAN_zero_def)
  have g: "gate (code (IBAN_zero\<lparr>code := ''DE89370400440532013000''\<rparr>))"
    by code_simp
  have l': "4 \<le> length (code (IBAN_zero\<lparr>code := ''DE89.3704''\<rparr>))"
    by (simp add: IBAN_zero_def)
  have s': "SetString (foldl expand_step []
        (drop 4 (code (IBAN_zero\<lparr>code := ''DE89.3704''\<rparr>))
         @ take 4 (code (IBAN_zero\<lparr>code := ''DE89.3704''\<rparr>)))) = None"
    by code_simp
  note a = validateCheckDigits_parse_never_fails[OF l]
  note b = validateCheckDigits_parse_never_fails[OF l']
  from a have a1: "validateCheckDigits (IBAN_zero\<lparr>code := ''DE89370400440532013000''\<rparr>) \<noteq> Panics" ..
  from a g have a2: "SetString (foldl expand_step []
        (drop 4 (code (IBAN_zero\<lparr>code := ''DE89370400440532013000''\<rparr>))
         @ take 4 (code (IBAN_zero\<lparr>code := ''DE89370400440532013000''\<rparr>)))) \<noteq> None"
    and a3: "validateCheckDigits (IBAN_zero\<lparr>code := ''DE89370400440532013000''\<rparr>)
        \<noteq> Returns (Some ''IBAN check digits validation failed'')"
    by blast+
  from b s' have b1: "validateCheckDigits (IBAN_zero\<lparr>code := ''DE89.3704''\<rparr>)
        = Returns (Some ''IBAN check digits validation failed'')"
    by blast
  from l g a1 a2 a3 l' s' b1 show ?thesis by (intro conjI)
qed

section \<open>The structure of the BBAN\<close>

lemma regexp_size_layout:
  "list_all2 (\<lambda>x y. snd x = snd y \<and> (\<forall>c. class_has (fst x) c = spec_class (fst y) c)) re l \<Longrightarrow>
   regexp_size re = layout_size l"
proof -
  assume "list_all2 (\<lambda>x y. snd x = snd y \<and> (\<forall>c. class_has (fst x) c = spec_class (fst y) c)) re l"
  then have "map (\<lambda>(r, n). max 1 (int n)) re = map (\<lambda>(t, n). max 1 (int n)) l"
    by (induction re l rule: list_all2_induct) (auto simp: case_prod_beta)
  then show ?thesis by (simp add: regexp_size_def layout_size_def)
qed

lemma validateBban_compiled:
  assumes "countrySettings i = Some cs"
  obtains bbr re where "bbr_loop [] (FindAllString_format (Format cs)) = Inr bbr"
    and "parse_pieces bbr = Inr re"
    and "regexp_size re = layout_size (layout_of (Format cs))"
    and "\<And>s. MatchString re s \<longleftrightarrow>
           (\<exists>pre mid post. s = pre @ mid @ post \<and> exact_layout (layout_of (Format cs)) mid)"
proof -
  from bbr_loop_compiles[of "FindAllString_format (Format cs)" "[]"] FindAllString_format_tokens
  obtain bbr re where b: "bbr_loop [] (FindAllString_format (Format cs)) = Inr bbr"
    and c: "parse_pieces bbr = Inr re"
    and r: "list_all2 (\<lambda>x y. snd x = snd y \<and> (\<forall>c. class_has (fst x) c = spec_class (fst y) c)) re
       (layout_of (Format cs))"
    unfolding layout_of_def by fastforce
  have "MatchString re s \<longleftrightarrow>
      (\<exists>pre mid post. s = pre @ mid @ post \<and> exact_layout (layout_of (Format cs)) mid)" for s
    unfolding MatchString_anywhere match_here_exact[OF r] by blast
  with b c regexp_size_layout[OF r] that show ?thesis by blast
qed

lemma validateBban_too_large:
  assumes "countrySettings i = Some cs" and "maxSize < layout_size (layout_of (Format cs))"
  shows "\<exists>e. validateBban i = Returns (Some (''Failed to validate bban: '' @ e))"
proof -
  from validateBban_compiled[OF assms(1)] obtain bbr re
    where "bbr_loop [] (FindAllString_format (Format cs)) = Inr bbr" "parse_pieces bbr = Inr re"
      "regexp_size re = layout_size (layout_of (Format cs))" by metis
  with assms show ?thesis
    by (simp add: validateBban_def Let_def regexp_Compile_def)
qed

lemma validateBban_result:
  assumes "countrySettings i = Some cs" and "layout_size (layout_of (Format cs)) \<le> maxSize"
  shows "validateBban i =
     (if \<exists>pre mid post. bban i = pre @ mid @ post \<and> exact_layout (layout_of (Format cs)) mid
      then Returns None
      else Returns (Some ''bban part of IBAN is not formatted according to country specification''))"
proof -
  from validateBban_compiled[OF assms(1)] obtain bbr re
    where b: "bbr_loop [] (FindAllString_format (Format cs)) = Inr bbr"
      and c: "parse_pieces bbr = Inr re"
      and z: "regexp_size re = layout_size (layout_of (Format cs))"
      and m: "MatchString re (bban i) \<longleftrightarrow>
           (\<exists>pre mid post. bban i = pre @ mid @ post \<and> exact_layout (layout_of (Format cs)) mid)"
    by metis
  from assms(2) z have "\<not> regexp_size re > maxSize" by simp
  with m show ?thesis
    by (simp add: validateBban_def assms(1) Let_def b c regexp_Compile_def)
qed

lemma exact_layout_whole:
  assumes "int (length s) = repeat_sum l"
  shows "(\<exists>pre mid post. s = pre @ mid @ post \<and> exact_layout l mid) \<longleftrightarrow> exact_layout l s"
proof
  assume "\<exists>pre mid post. s = pre @ mid @ post \<and> exact_layout l mid"
  then obtain pre mid post where s: "s = pre @ mid @ post" and e: "exact_layout l mid" by blast
  from exact_layout_length[OF e] assms have "length s = length mid" by simp
  with s have "pre = []" "post = []" by simp_all
  with s e show "exact_layout l s" by simp
next
  assume "exact_layout l s"
  then have "s = [] @ s @ [] \<and> exact_layout l s" by simp
  then show "\<exists>pre mid post. s = pre @ mid @ post \<and> exact_layout l mid" by blast
qed

subsection \<open>The tokens of a descriptor\<close>

lemma is_tag_spec_tag: "is_tag t = spec_tag t"
  by (auto simp: is_tag_def spec_tag_def)

lemma layout_of_token:
  "is_tag t \<Longrightarrow> is_digit a \<Longrightarrow> is_digit b \<Longrightarrow>
   layout_of (t # a # b # s) = (t, nat (10 * (byte a - 48) + (byte b - 48))) # layout_of s"
  by (simp add: layout_of_def decimal_two digit_val_def)

lemma layout_of_no_tag: "\<not> is_tag a \<Longrightarrow> layout_of (a # s) = layout_of s"
  by (cases "(a # s)" rule: FindAllString_format.cases) (auto simp: layout_of_def)

lemma layout_of_no_count:
  "\<not> (is_digit b \<and> is_digit c) \<Longrightarrow> layout_of (a # b # c # s) = layout_of (b # c # s)"
  by (auto simp: layout_of_def)

lemma layout_of_short: "length s < 3 \<Longrightarrow> layout_of s = []"
  by (cases s rule: FindAllString_format.cases) (simp_all add: layout_of_def)

lemma layout_of_prefix: "spec_layout u = Some l \<Longrightarrow> layout_of (u @ v) = l @ layout_of v"
proof (induction u arbitrary: l rule: spec_layout.induct)
  case 1
  then show ?case by simp
next
  case (2 t a b s)
  from "2.prems" have g: "spec_tag t \<and> is_digit a \<and> is_digit b"
    by (simp split: if_splits)
  with "2.prems" obtain l' where l': "spec_layout s = Some l'"
    and l: "l = (t, nat (10 * (byte a - 48) + (byte b - 48))) # l'" by auto
  from "2.IH"[OF g l'] g show ?case
    by (simp add: l layout_of_token is_tag_spec_tag)
qed simp_all

lemma layout_of_replicate:
  "spec_layout u = Some l \<Longrightarrow> layout_of (concat (replicate k u)) = concat (replicate k l)"
  by (induction k) (simp_all add: layout_of_short layout_of_prefix)

lemma layout_size_replicate:
  "0 < k \<Longrightarrow> 0 < n \<Longrightarrow> layout_size (replicate k (t, n)) = int k * int n"
proof -
  assume k: "0 < k" and n: "0 < n"
  have "sum_list (map (\<lambda>(t, n). max 1 (int n)) (replicate k (t, n))) = int k * int n"
    using n by (induction k) (simp_all add: algebra_simps)
  moreover have "1 \<le> int k * int n"
  proof -
    have "1 \<le> k * n" using k n by (simp add: Suc_leI)
    then have "int 1 \<le> int (k * n)" by (simp only: of_nat_le_iff)
    then show ?thesis by simp
  qed
  ultimately show ?thesis by (simp add: layout_size_def)
qed

subsection \<open>Acceptance\<close>

text \<open>
  Claim C3, as stated, fails: the pattern is not anchored, so a candidate with a
  character before the two digits of the layout \<^verbatim>\<open>F02\<close>, and one after, is accepted, though
  it is not exactly the layout.
\<close>

theorem validateBban_unanchored_counterexample:
  "validateBban (IBAN_zero\<lparr>countrySettings := Some \<lparr>Length = 6, Format = ''F02'', Sepa = False\<rparr>,
      bban := ''A123''\<rparr>) = Returns None
   \<and> \<not> exact_layout (layout_of ''F02'') ''A123''"
  by code_simp

text \<open>
  Claim C3, amended. For every layout descriptor and every candidate,
  \<^verbatim>\<open>validateBban\<close> accepts the candidate exactly when the pattern of the descriptor is
  within the size that the regexp library compiles and some contiguous part of the
  candidate is the in-order concatenation of count characters of each token's class;
  within that size it otherwise returns the format error. For a candidate whose length
  is the sum of the counts, as the length check of \<^verbatim>\<open>NewIBAN\<close> makes it, that is:
  exactly when the whole candidate is that concatenation, with nothing before, between
  or after. The tokens are those found in the descriptor; for a descriptor of the
  grammar they are its tokens.
\<close>

theorem validateBban_accepts:
  assumes "countrySettings i = Some cs"
  shows "(validateBban i = Returns None
            \<longleftrightarrow> layout_size (layout_of (Format cs)) \<le> maxSize
              \<and> (\<exists>pre mid post. bban i = pre @ mid @ post \<and> exact_layout (layout_of (Format cs)) mid))
       \<and> (layout_size (layout_of (Format cs)) \<le> maxSize \<and> validateBban i \<noteq> Returns None \<longrightarrow>
            validateBban i
              = Returns (Some ''bban part of IBAN is not formatted according to country specification''))
       \<and> (int (length (bban i)) = repeat_sum (layout_of (Format cs)) \<longrightarrow>
            (validateBban i = Returns None
               \<longleftrightarrow> layout_size (layout_of (Format cs)) \<le> maxSize
                 \<and> exact_layout (layout_of (Format cs)) (bban i)))
       \<and> (\<forall>l. spec_layout (Format cs) = Some l \<longrightarrow> layout_of (Format cs) = l)"
proof -
  have a: "validateBban i = Returns None
      \<longleftrightarrow> layout_size (layout_of (Format cs)) \<le> maxSize
        \<and> (\<exists>pre mid post. bban i = pre @ mid @ post \<and> exact_layout (layout_of (Format cs)) mid)"
  proof (cases "layout_size (layout_of (Format cs)) \<le> maxSize")
    case True
    then show ?thesis by (simp add: validateBban_result[OF assms True])
  next
    case False
    then have "maxSize < layout_size (layout_of (Format cs))" by simp
    from validateBban_too_large[OF assms this] False show ?thesis by auto
  qed
  have b: "validateBban i
      = Returns (Some ''bban part of IBAN is not formatted according to country specification'')"
    if "layout_size (layout_of (Format cs)) \<le> maxSize \<and> validateBban i \<noteq> Returns None"
  proof -
    from that have sz: "layout_size (layout_of (Format cs)) \<le> maxSize"
      and n: "validateBban i \<noteq> Returns None" by simp_all
    from n show ?thesis by (simp add: validateBban_result[OF assms sz] split: if_splits)
  qed
  have c: "validateBban i = Returns None
      \<longleftrightarrow> layout_size (layout_of (Format cs)) \<le> maxSize
        \<and> exact_layout (layout_of (Format cs)) (bban i)"
    if "int (length (bban i)) = repeat_sum (layout_of (Format cs))"
    using a exact_layout_whole[OF that] by simp
  have d: "layout_of (Format cs) = l" if "spec_layout (Format cs) = Some l" for l
    using layout_of_prefix[OF that, of "[]"] by (simp add: layout_of_short)
  from a b c d show ?thesis by blast
qed

theorem validateBban_accepts_witness:
  "countrySettings (IBAN_zero\<lparr>countrySettings := Some \<lparr>Length = 22, Format = ''U04F06F08'', Sepa = True\<rparr>,
      bban := ''WEST12345698765432''\<rparr>) = Some \<lparr>Length = 22, Format = ''U04F06F08'', Sepa = True\<rparr>
   \<and> spec_layout ''U04F06F08'' = Some [(CHR ''U'', 4), (CHR ''F'', 6), (CHR ''F'', 8)]
   \<and> layout_of ''U04F06F08'' = [(CHR ''U'', 4), (CHR ''F'', 6), (CHR ''F'', 8)]
   \<and> layout_size (layout_of ''U04F06F08'') \<le> maxSize
   \<and> int (length ''WEST12345698765432'') = repeat_sum (layout_of ''U04F06F08'')
   \<and> exact_layout (layout_of ''U04F06F08'') ''WEST12345698765432''
   \<and> validateBban (IBAN_zero\<lparr>countrySettings := Some \<lparr>Length = 22, Format = ''U04F06F08'', Sepa = True\<rparr>,
      bban := ''WEST12345698765432''\<rparr>) = Returns None
   \<and> validateBban (IBAN_zero\<lparr>countrySettings := Some \<lparr>Length = 22, Format = ''U04F06F08'', Sepa = True\<rparr>,
      bban := ''WE5T12345698765432''\<rparr>)
      = Returns (Some ''bban part of IBAN is not formatted according to country specification'')"
proof -
  let ?gb = "\<lparr>Length = 22, Format = ''U04F06F08'', Sepa = True\<rparr>"
  let ?i = "IBAN_zero\<lparr>countrySettings := Some ?gb, bban := ''WEST12345698765432''\<rparr>"
  let ?j = "IBAN_zero\<lparr>countrySettings := Some ?gb, bban := ''WE5T12345698765432''\<rparr>"
  have h: "countrySettings ?i = Some ?gb" by (simp add: IBAN_zero_def)
  have h': "countrySettings ?j = Some ?gb" by (simp add: IBAN_zero_def)
  have s: "bban ?i = ''WEST12345698765432''" "bban ?j = ''WE5T12345698765432''"
    "Format ?gb = ''U04F06F08''"
    by (simp_all add: IBAN_zero_def)
  have g: "spec_layout ''U04F06F08'' = Some [(CHR ''U'', 4), (CHR ''F'', 6), (CHR ''F'', 8)]"
    by code_simp
  have z: "layout_size (layout_of ''U04F06F08'') \<le> maxSize" by code_simp
  have l: "int (length ''WEST12345698765432'') = repeat_sum (layout_of ''U04F06F08'')" by code_simp
  have e: "exact_layout (layout_of ''U04F06F08'') ''WEST12345698765432''" by code_simp
  have e': "\<not> exact_layout (layout_of ''U04F06F08'') ''WE5T12345698765432''" by code_simp
  have l': "int (length ''WE5T12345698765432'') = repeat_sum (layout_of ''U04F06F08'')" by code_simp
  note t = validateBban_accepts[OF h]
  note t' = validateBban_accepts[OF h']
  from t g have lo: "layout_of ''U04F06F08'' = [(CHR ''U'', 4), (CHR ''F'', 6), (CHR ''F'', 8)]"
    unfolding s by blast
  from t l z e have v: "validateBban ?i = Returns None"
    unfolding s by blast
  from t' l' e' have "validateBban ?j \<noteq> Returns None"
    unfolding s by blast
  with t' z
  have v': "validateBban ?j = Returns (Some ''bban part of IBAN is not formatted according to country specification'')"
    unfolding s by blast
  from h g lo z l e v v' show ?thesis by (intro conjI)
qed

subsection \<open>Errors of compiling\<close>

text \<open>
  Claim C4, as stated, fails: a descriptor with the unknown tag X, and one with a
  letter where the second digit of a count should be, both give no error at all.
\<close>

theorem validateBban_skips_counterexample:
  "\<not> is_tag (CHR ''X'')
   \<and> validateBban (IBAN_zero\<lparr>countrySettings := Some \<lparr>Length = 6, Format = ''X04F02'', Sepa = False\<rparr>,
        bban := ''12''\<rparr>) = Returns None
   \<and> \<not> is_digit (CHR ''x'')
   \<and> validateBban (IBAN_zero\<lparr>countrySettings := Some \<lparr>Length = 6, Format = ''F0xF02'', Sepa = False\<rparr>,
        bban := ''12''\<rparr>) = Returns None"
  by code_simp

text \<open>
  Claim C4, amended. For every layout descriptor \<^verbatim>\<open>validateBban\<close> returns an error of
  compiling the layout exactly when the pattern of the tokens found in the descriptor
  is above the size that the regexp library compiles, and otherwise no error or the
  format error; an unknown tag or a count that is not two digits never gives an error.
  The tokens found are these, wherever they stand in the descriptor: a tag with two
  digits after it is a token and the search goes on behind it; a character that is no
  tag, and a tag that two digits do not follow, is passed over; fewer than three
  characters hold no token; so a descriptor of the grammar, whatever follows it,
  contributes its own tokens.
\<close>

theorem validateBban_compile_error:
  assumes "countrySettings i = Some cs"
  shows "((\<exists>e. validateBban i = Returns (Some (''Failed to validate bban: '' @ e)))
            \<longleftrightarrow> maxSize < layout_size (layout_of (Format cs)))
       \<and> (layout_size (layout_of (Format cs)) \<le> maxSize \<longrightarrow>
            validateBban i = Returns None
            \<or> validateBban i
               = Returns (Some ''bban part of IBAN is not formatted according to country specification''))
       \<and> (\<forall>t a b s. is_tag t \<and> is_digit a \<and> is_digit b \<longrightarrow>
            layout_of (t # a # b # s) = (t, nat (10 * (byte a - 48) + (byte b - 48))) # layout_of s)
       \<and> (\<forall>a s. \<not> is_tag a \<longrightarrow> layout_of (a # s) = layout_of s)
       \<and> (\<forall>a b c s. \<not> (is_digit b \<and> is_digit c) \<longrightarrow>
            layout_of (a # b # c # s) = layout_of (b # c # s))
       \<and> (\<forall>s. length s < 3 \<longrightarrow> layout_of s = [])
       \<and> (\<forall>u v l. spec_layout u = Some l \<longrightarrow> layout_of (u @ v) = l @ layout_of v)"
proof -
  have a: "(\<exists>e. validateBban i = Returns (Some (''Failed to validate bban: '' @ e)))
      \<longleftrightarrow> maxSize < layout_size (layout_of (Format cs))"
  proof (cases "layout_size (layout_of (Format cs)) \<le> maxSize")
    case True
    then show ?thesis by (simp add: validateBban_result[OF assms True])
  next
    case False
    then have "maxSize < layout_size (layout_of (Format cs))" by simp
    with validateBban_too_large[OF assms this] show ?thesis by simp
  qed
  have b: "validateBban i = Returns None \<or> validateBban i
      = Returns (Some ''bban part of IBAN is not formatted according to country specification'')"
    if "layout_size (layout_of (Format cs)) \<le> maxSize"
    by (simp add: validateBban_result[OF assms that])
  from a b layout_of_token layout_of_no_tag layout_of_no_count layout_of_short layout_of_prefix
  show ?thesis by blast
qed

theorem validateBban_compile_error_witness:
  "countrySettings (IBAN_zero\<lparr>countrySettings := Some \<lparr>Length = 6, Format = ''F02xU0yA01'', Sepa = False\<rparr>,
      bban := ''12''\<rparr>) = Some \<lparr>Length = 6, Format = ''F02xU0yA01'', Sepa = False\<rparr>
   \<and> spec_layout ''F02'' = Some [(CHR ''F'', 2)]
   \<and> \<not> is_tag (CHR ''x'')
   \<and> \<not> (is_digit (CHR ''0'') \<and> is_digit (CHR ''y''))
   \<and> \<not> is_tag (CHR ''0'') \<and> \<not> is_tag (CHR ''y'')
   \<and> is_tag (CHR ''A'') \<and> is_digit (CHR ''0'') \<and> is_digit (CHR ''1'')
   \<and> layout_of ''F02xU0yA01'' = [(CHR ''F'', 2), (CHR ''A'', 1)]
   \<and> (\<exists>e. validateBban (IBAN_zero\<lparr>countrySettings :=
          Some \<lparr>Length = 0, Format = concat (replicate 33894 ''F99''), Sepa = False\<rparr>\<rparr>)
        = Returns (Some (''Failed to validate bban: '' @ e)))
   \<and> validateBban (IBAN_zero\<lparr>countrySettings := Some \<lparr>Length = 6, Format = ''F02xU0yA01'', Sepa = False\<rparr>,
        bban := ''12''\<rparr>)
      = Returns (Some ''bban part of IBAN is not formatted according to country specification'')"
proof -
  let ?cs = "\<lparr>Length = 6, Format = ''F02xU0yA01'', Sepa = False\<rparr>"
  let ?i = "IBAN_zero\<lparr>countrySettings := Some ?cs, bban := ''12''\<rparr>"
  let ?big = "\<lparr>Length = 0, Format = concat (replicate 33894 ''F99''), Sepa = False\<rparr>"
  let ?j = "IBAN_zero\<lparr>countrySettings := Some ?big\<rparr>"
  have h: "countrySettings ?i = Some ?cs" by (simp add: IBAN_zero_def)
  have h': "countrySettings ?j = Some ?big" by (simp add: IBAN_zero_def)
  have f: "Format ?cs = ''F02xU0yA01''" "Format ?big = concat (replicate 33894 ''F99'')"
    by simp_all
  have g: "spec_layout ''F02'' = Some [(CHR ''F'', 2)]" by code_simp
  have x: "\<not> is_tag (CHR ''x'')" by code_simp
  have d: "\<not> (is_digit (CHR ''0'') \<and> is_digit (CHR ''y''))" by code_simp
  have o: "\<not> is_tag (CHR ''0'')" "\<not> is_tag (CHR ''y'')" by code_simp+
  have k: "is_tag (CHR ''A'')" "is_digit (CHR ''0'')" "is_digit (CHR ''1'')" by code_simp+
  note t = validateBban_compile_error[OF h]
  note t' = validateBban_compile_error[OF h']
  from t g have 1: "layout_of (''F02'' @ ''xU0yA01'') = [(CHR ''F'', 2)] @ layout_of ''xU0yA01''"
    by blast
  from t x have 2: "layout_of ''xU0yA01'' = layout_of ''U0yA01''" by simp
  from t d have 3: "layout_of ''U0yA01'' = layout_of ''0yA01''" by blast
  from t o have 4: "layout_of ''0yA01'' = layout_of ''yA01''" "layout_of ''yA01'' = layout_of ''A01''"
    by simp_all
  from t k
  have 5: "layout_of ''A01''
      = (CHR ''A'', nat (10 * (byte CHR ''0'' - 48) + (byte CHR ''1'' - 48))) # layout_of []"
    by blast
  from t have 6: "layout_of [] = []" by simp
  have 7: "nat (10 * (byte CHR ''0'' - 48) + (byte CHR ''1'' - 48)) = 1" by code_simp
  from 1 2 3 4 5 6 7 have lo: "layout_of ''F02xU0yA01'' = [(CHR ''F'', 2), (CHR ''A'', 1)]"
    by simp
  have "spec_layout ''F99'' = Some [(CHR ''F'', 99)]" by code_simp
  from layout_of_replicate[OF this, of 33894]
  have "layout_size (layout_of (concat (replicate 33894 ''F99''))) = 33894 * 99"
    by (simp add: layout_size_replicate)
  then have big: "maxSize < layout_size (layout_of (concat (replicate 33894 ''F99'')))"
    by (simp add: maxSize_def)
  from t' big have e: "\<exists>e. validateBban ?j = Returns (Some (''Failed to validate bban: '' @ e))"
    unfolding f by blast
  have sz: "layout_size (layout_of ''F02xU0yA01'') \<le> maxSize"
    unfolding lo by code_simp
  have nn: "validateBban ?i \<noteq> Returns None" by code_simp
  from t sz nn
  have v: "validateBban ?i
      = Returns (Some ''bban part of IBAN is not formatted according to country specification'')"
    unfolding f by blast
  from h g x d o k lo e v show ?thesis by (intro conjI)
qed

section \<open>The construction\<close>

lemma FindString_header_cases:
  "FindString_header s = [] \<or> (FindString_header s = take 4 s \<and> 4 \<le> length s)"
  by (auto simp: FindString_header_def split: list.splits)

lemma validateBban_no_panic: "countrySettings i = Some cs \<Longrightarrow> validateBban i \<noteq> Panics"
proof -
  assume h: "countrySettings i = Some cs"
  show ?thesis
  proof (cases "layout_size (layout_of (Format cs)) \<le> maxSize")
    case True
    then show ?thesis by (simp add: validateBban_result[OF h True])
  next
    case False
    then have "maxSize < layout_size (layout_of (Format cs))" by simp
    from validateBban_too_large[OF h this] show ?thesis by auto
  qed
qed

lemma validateCheckDigits_no_panic: "4 \<le> length (code i) \<Longrightarrow> validateCheckDigits i \<noteq> Panics"
  by (simp add: validateCheckDigits_def Let_def split: option.split)

lemma validateBban_printCode [simp]: "validateBban (i\<lparr>printCode := p\<rparr>) = validateBban i"
  by (simp add: validateBban_def Let_def split: option.split sum.split)

lemma validateCheckDigits_printCode [simp]:
  "validateCheckDigits (i\<lparr>printCode := p\<rparr>) = validateCheckDigits i"
  by (simp add: validateCheckDigits_def)

lemma NewIBAN_no_panic: "NewIBAN s0 \<noteq> Panics"
proof -
  define s where "s = ToUpper (Replace_spaces s0)"
  from FindString_header_cases[of s] show ?thesis
  proof
    assume "FindString_header s = []"
    then show ?thesis by (simp add: NewIBAN_def Let_def flip: s_def)
  next
    assume h: "FindString_header s = take 4 s \<and> 4 \<le> length s"
    have b: "validateBban (IBAN_zero\<lparr>code := s, countryCode := cc, checkDigits := cd,
        countrySettings := Some cs, bban := bb\<rparr>) \<noteq> Panics" for cc cd cs bb
      by (rule validateBban_no_panic[of _ cs]) simp
    have c: "validateCheckDigits (IBAN_zero\<lparr>code := s, countryCode := cc, checkDigits := cd,
        countrySettings := Some cs, bban := bb\<rparr>) \<noteq> Panics" for cc cd cs bb
      by (rule validateCheckDigits_no_panic) (simp add: h)
    show ?thesis using h b c
      by (simp add: NewIBAN_def Let_def flip: s_def split: option.split outcome.split)
  qed
qed

lemma NewIBAN_SomeD:
  assumes "NewIBAN s0 = Returns (Some i, e)"
  shows "e = None"
    and "code i = ToUpper (Replace_spaces s0)"
    and "gate (code i)"
    and "4 \<le> length (code i)"
    and "FindString_header (code i) = take 4 (code i)"
    and "countryCode i = take 2 (code i)"
    and "checkDigits i = take 2 (drop 2 (code i))"
    and "bban i = drop 4 (code i)"
    and "\<exists>cs. countrySettings i = Some cs \<and> countries (countryCode i) = Some cs
           \<and> int (length (code i)) = Length cs"
    and "printCode i = print_loop [] (code i)"
    and "validateBban i = Returns None"
    and "validateCheckDigits i = Returns None"
proof -
  define s where "s = ToUpper (Replace_spaces s0)"
  have h: "FindString_header s = take 4 s \<and> 4 \<le> length s"
    using assms FindString_header_cases[of s]
    by (auto simp: NewIBAN_def Let_def simp flip: s_def split: if_splits)
  have cd: "drop 2 (take 4 s) = take 2 (drop 2 s)"
    by (simp add: drop_take)
  from assms h obtain cs where cs: "countries (take 2 s) = Some cs" "int (length s) = Length cs"
    and b: "validateBban \<lparr>code = s, printCode = [], countryCode = take 2 s,
        checkDigits = drop 2 (take 4 s), countrySettings = Some cs, bban = drop 4 s\<rparr> = Returns None"
    and c: "validateCheckDigits \<lparr>code = s, printCode = [], countryCode = take 2 s,
        checkDigits = drop 2 (take 4 s), countrySettings = Some cs, bban = drop 4 s\<rparr> = Returns None"
    and i: "i = \<lparr>code = s, printCode = print_loop [] s, countryCode = take 2 s,
        checkDigits = drop 2 (take 4 s), countrySettings = Some cs, bban = drop 4 s\<rparr>"
    and e: "e = None"
    by (auto simp: NewIBAN_def Let_def IBAN_zero_def simp flip: s_def
        split: if_splits option.splits outcome.splits)
  show "e = None" by (rule e)
  show "code i = ToUpper (Replace_spaces s0)" by (simp add: i s_def)
  show "gate (code i)" using assms
    by (auto simp: i NewIBAN_def Let_def simp flip: s_def split: if_splits)
  show "4 \<le> length (code i)" using h by (simp add: i)
  show "FindString_header (code i) = take 4 (code i)" using h by (simp add: i)
  show "countryCode i = take 2 (code i)" by (simp add: i)
  show "checkDigits i = take 2 (drop 2 (code i))" by (simp add: i cd)
  show "bban i = drop 4 (code i)" by (simp add: i)
  show "\<exists>cs. countrySettings i = Some cs \<and> countries (countryCode i) = Some cs
           \<and> int (length (code i)) = Length cs" using cs by (simp add: i)
  show "printCode i = print_loop [] (code i)" by (simp add: i)
  have "i = \<lparr>code = s, printCode = [], countryCode = take 2 s,
        checkDigits = drop 2 (take 4 s), countrySettings = Some cs, bban = drop 4 s\<rparr>
        \<lparr>printCode := print_loop [] s\<rparr>" by (simp add: i)
  then show "validateBban i = Returns None" "validateCheckDigits i = Returns None"
    using b c by (simp_all only: validateBban_printCode validateCheckDigits_printCode)
qed

lemma gate_char_plain:
  "gate_char c \<Longrightarrow> c \<noteq> CHR '' '' \<and> upper_byte c = c \<and> byte c \<noteq> 196 \<and> byte c \<noteq> 197"
  by (auto simp: gate_char_def is_digit_def is_upper_def is_lower_def upper_byte_def byte_def)

lemma gate_Replace_spaces: "gate s \<Longrightarrow> Replace_spaces s = s"
  by (induction s) (auto simp: gate_def Replace_spaces_def dest: gate_char_plain)

lemma gate_ToUpper: "gate s \<Longrightarrow> ToUpper s = s"
  by (induction s rule: ToUpper.induct) (auto simp: gate_def dest: gate_char_plain)

lemma Replace_spaces_append: "Replace_spaces (a @ b) = Replace_spaces a @ Replace_spaces b"
  by (simp add: Replace_spaces_def)

lemma Replace_spaces_print_loop:
  "Replace_spaces (print_loop prc s) = Replace_spaces prc @ Replace_spaces s"
proof (induction prc s rule: print_loop.induct)
  case (1 prc s)
  show ?case
  proof (cases "length s > 4")
    case True
    have "Replace_spaces (print_loop prc s)
        = Replace_spaces (prc @ take 4 s @ '' '') @ Replace_spaces (drop 4 s)"
      using True "1.IH" by (simp add: print_loop.simps[of prc s])
    also have "\<dots> = Replace_spaces prc @ Replace_spaces (take 4 s @ drop 4 s)"
      by (simp add: Replace_spaces_def del: append_take_drop_id)
    finally show ?thesis by simp
  next
    case False
    then show ?thesis by (simp add: print_loop.simps[of prc s] Replace_spaces_append)
  qed
qed

lemma NewIBAN_NoneD: "NewIBAN s0 = Returns (None, e) \<Longrightarrow> \<exists>msg. e = Some msg"
  by (auto simp: NewIBAN_def Let_def split: if_splits option.splits outcome.splits)

text \<open>
  Claim C5. For every input \<^verbatim>\<open>NewIBAN\<close> returns (it is a total function that never
  takes the panic outcome), and what it returns is either a value with every field set
  from the normalised input, both validations passed, together with a nil error, or a
  nil pointer together with an error.
\<close>

theorem NewIBAN_all_or_nothing:
  "\<exists>r. NewIBAN s0 = Returns r \<and>
     ((\<exists>i cs. r = (Some i, None)
          \<and> code i = ToUpper (Replace_spaces s0)
          \<and> countryCode i = take 2 (code i)
          \<and> checkDigits i = take 2 (drop 2 (code i))
          \<and> bban i = drop 4 (code i)
          \<and> countrySettings i = Some cs \<and> countries (countryCode i) = Some cs
          \<and> int (length (code i)) = Length cs
          \<and> printCode i = print_loop [] (code i)
          \<and> validateBban i = Returns None \<and> validateCheckDigits i = Returns None)
      \<or> (\<exists>msg. r = (None, Some msg)))"
proof -
  from NewIBAN_no_panic[of s0] obtain p e where r: "NewIBAN s0 = Returns (p, e)"
    by (cases "NewIBAN s0") auto
  show ?thesis
  proof (cases p)
    case None
    with r NewIBAN_NoneD[of s0 e] show ?thesis by auto
  next
    case (Some i)
    with r have s: "NewIBAN s0 = Returns (Some i, e)" by simp
    from NewIBAN_SomeD(9)[OF s] obtain cs where "countrySettings i = Some cs"
      "countries (countryCode i) = Some cs" "int (length (code i)) = Length cs" by blast
    with NewIBAN_SomeD[OF s] s show ?thesis by auto
  qed
qed

theorem NewIBAN_all_or_nothing_witness:
  "(\<exists>i. NewIBAN ''DE89 3704 0044 0532 0130 00'' = Returns (Some i, None))
   \<and> (\<exists>msg. NewIBAN ''DE89 3704 0044 0532 0130 01'' = Returns (None, Some msg))"
proof -
  have a: "NewIBAN ''DE89 3704 0044 0532 0130 00'' \<noteq> Returns (None, Some msg)" for msg
    by code_simp
  have b: "NewIBAN ''DE89 3704 0044 0532 0130 01'' \<noteq> Returns (Some i, None)" for i
    by code_simp
  from NewIBAN_all_or_nothing[of "''DE89 3704 0044 0532 0130 00''"] a
  have 1: "\<exists>i. NewIBAN ''DE89 3704 0044 0532 0130 00'' = Returns (Some i, None)" by auto
  from NewIBAN_all_or_nothing[of "''DE89 3704 0044 0532 0130 01''"] b
  have 2: "\<exists>msg. NewIBAN ''DE89 3704 0044 0532 0130 01'' = Returns (None, Some msg)" by auto
  from 1 2 show ?thesis by (rule conjI)
qed

text \<open>
  Claim C7. When \<^verbatim>\<open>NewIBAN\<close> succeeds, removing the spaces from \<^verbatim>\<open>PrintCode()\<close> gives
  back the normalised code.
\<close>

theorem PrintCode_without_spaces:
  assumes "NewIBAN s0 = Returns (Some i, e)"
  shows "Replace_spaces (PrintCode i) = code i"
proof -
  have "Replace_spaces (PrintCode i) = Replace_spaces (code i)"
    by (simp add: PrintCode_def NewIBAN_SomeD(10)[OF assms] Replace_spaces_print_loop)
      (simp add: Replace_spaces_def)
  with gate_Replace_spaces[OF NewIBAN_SomeD(3)[OF assms]] show ?thesis by simp
qed

theorem PrintCode_without_spaces_witness:
  "NewIBAN ''no93 86011117947'' = Returns (Some \<lparr>code = ''NO9386011117947'',
      printCode = ''NO93 8601 1117 947'', countryCode = ''NO'', checkDigits = ''93'',
      countrySettings = Some \<lparr>Length = 15, Format = ''F04F06F01'', Sepa = True\<rparr>,
      bban = ''86011117947''\<rparr>, None)
   \<and> Replace_spaces ''NO93 8601 1117 947'' = ''NO9386011117947''"
proof -
  have n: "NewIBAN ''no93 86011117947'' = Returns (Some \<lparr>code = ''NO9386011117947'',
      printCode = ''NO93 8601 1117 947'', countryCode = ''NO'', checkDigits = ''93'',
      countrySettings = Some \<lparr>Length = 15, Format = ''F04F06F01'', Sepa = True\<rparr>,
      bban = ''86011117947''\<rparr>, None)"
    by code_simp
  from PrintCode_without_spaces[OF n]
  have "Replace_spaces ''NO93 8601 1117 947'' = ''NO9386011117947''"
    by (simp add: PrintCode_def)
  with n show ?thesis by (rule conjI)
qed

text \<open>
  Claim C8. When \<^verbatim>\<open>NewIBAN\<close> succeeds on an input, it succeeds on the code of the value
  it returned, with the same value in every field.
\<close>

theorem NewIBAN_idempotent:
  assumes "NewIBAN s0 = Returns (Some i, e)"
  shows "NewIBAN (code i) = Returns (Some i, None)"
proof -
  note g = NewIBAN_SomeD(3)[OF assms]
  have "ToUpper (Replace_spaces (code i)) = code i"
    by (simp add: gate_Replace_spaces[OF g] gate_ToUpper[OF g])
  then have "ToUpper (Replace_spaces (code i)) = ToUpper (Replace_spaces s0)"
    by (simp add: NewIBAN_SomeD(2)[OF assms])
  then have "NewIBAN (code i) = NewIBAN s0"
    by (simp only: NewIBAN_def)
  with assms NewIBAN_SomeD(1)[OF assms] show ?thesis by simp
qed

theorem NewIBAN_idempotent_witness:
  "NewIBAN ''gb82 west 1234 5698 7654 32'' = Returns (Some \<lparr>code = ''GB82WEST12345698765432'',
      printCode = ''GB82 WEST 1234 5698 7654 32'', countryCode = ''GB'', checkDigits = ''82'',
      countrySettings = Some \<lparr>Length = 22, Format = ''U04F06F08'', Sepa = True\<rparr>,
      bban = ''WEST12345698765432''\<rparr>, None)
   \<and> NewIBAN ''GB82WEST12345698765432'' = Returns (Some \<lparr>code = ''GB82WEST12345698765432'',
      printCode = ''GB82 WEST 1234 5698 7654 32'', countryCode = ''GB'', checkDigits = ''82'',
      countrySettings = Some \<lparr>Length = 22, Format = ''U04F06F08'', Sepa = True\<rparr>,
      bban = ''WEST12345698765432''\<rparr>, None)"
proof -
  have n: "NewIBAN ''gb82 west 1234 5698 7654 32'' = Returns (Some \<lparr>code = ''GB82WEST12345698765432'',
      printCode = ''GB82 WEST 1234 5698 7654 32'', countryCode = ''GB'', checkDigits = ''82'',
      countrySettings = Some \<lparr>Length = 22, Format = ''U04F06F08'', Sepa = True\<rparr>,
      bban = ''WEST12345698765432''\<rparr>, None)"
    by code_simp
  from NewIBAN_idempotent[OF n]
  have "NewIBAN ''GB82WEST12345698765432'' = Returns (Some \<lparr>code = ''GB82WEST12345698765432'',
      printCode = ''GB82 WEST 1234 5698 7654 32'', countryCode = ''GB'', checkDigits = ''82'',
      countrySettings = Some \<lparr>Length = 22, Format = ''U04F06F08'', Sepa = True\<rparr>,
      bban = ''WEST12345698765432''\<rparr>, None)"
    by simp
  with n show ?thesis by (rule conjI)
qed

subsection \<open>Blank input\<close>

lemma Replace_spaces_only_spaces: "list_all (\<lambda>c. c = CHR '' '') s0 \<Longrightarrow> Replace_spaces s0 = []"
  by (induction s0) (auto simp: Replace_spaces_def)

text \<open>
  Claim C10. For the empty input and for an input of spaces only, the normalised text
  passes the character gate and \<^verbatim>\<open>NewIBAN\<close> returns a nil pointer with the error of the
  header step; it does not panic.
\<close>

theorem NewIBAN_blank_input:
  assumes "list_all (\<lambda>c. c = CHR '' '') s0"
  shows "gate (ToUpper (Replace_spaces s0))
       \<and> NewIBAN s0 = Returns (None,
            Some ''IBAN must start with country code (2 characters) and check digits (2 digits)'')"
  by (simp add: Replace_spaces_only_spaces[OF assms] NewIBAN_def gate_def FindString_header_def)

theorem NewIBAN_blank_input_witness:
  "list_all (\<lambda>c. c = CHR '' '') '''' \<and> gate (ToUpper (Replace_spaces ''''))
   \<and> NewIBAN '''' = Returns (None,
        Some ''IBAN must start with country code (2 characters) and check digits (2 digits)'')
   \<and> list_all (\<lambda>c. c = CHR '' '') ''   '' \<and> gate (ToUpper (Replace_spaces ''   ''))
   \<and> NewIBAN ''   '' = Returns (None,
        Some ''IBAN must start with country code (2 characters) and check digits (2 digits)'')"
proof -
  have e: "list_all (\<lambda>c. c = CHR '' '') ''''" by simp
  have s: "list_all (\<lambda>c. c = CHR '' '') ''   ''" by simp
  from NewIBAN_blank_input[OF e] NewIBAN_blank_input[OF s] e s show ?thesis by (intro conjI) blast+
qed

section \<open>The table\<close>

lemma countries_entries_consistent:
  "list_all (\<lambda>(cc, cs). repeat_sum (layout_of (Format cs)) = Length cs - 4
      \<and> concat (FindAllString_format (Format cs)) = Format cs) countries_entries"
  by code_simp

text \<open>
  Claim C6. For every entry of the table the repeat counts of the tokens of its
  \<^verbatim>\<open>Format\<close> add up to its \<^verbatim>\<open>Length\<close> minus 4; the tokens are the whole descriptor.
\<close>

theorem countries_repeat_sum:
  assumes "countries cc = Some cs"
  shows "repeat_sum (layout_of (Format cs)) = Length cs - 4
       \<and> concat (FindAllString_format (Format cs)) = Format cs"
proof -
  from assms have "(cc, cs) \<in> set countries_entries"
    by (simp add: countries_def map_of_SomeD)
  with countries_entries_consistent show ?thesis
    by (auto simp: list_all_iff)
qed

theorem countries_repeat_sum_witness:
  "countries ''GB'' = Some \<lparr>Length = 22, Format = ''U04F06F08'', Sepa = True\<rparr>
   \<and> repeat_sum (layout_of ''U04F06F08'') = 22 - 4"
proof -
  have c: "countries ''GB'' = Some \<lparr>Length = 22, Format = ''U04F06F08'', Sepa = True\<rparr>"
    by code_simp
  from countries_repeat_sum[OF c] have "repeat_sum (layout_of ''U04F06F08'') = 22 - 4" by simp
  with c show ?thesis by (rule conjI)
qed

section \<open>\<^verbatim>\<open>Validate\<close>\<close>

text \<open>The last statement of \<^verbatim>\<open>Validate\<close> builds an error from the text in every case.\<close>

lemma Validate_never_nil: "Validate i \<noteq> Returns None"
  by (simp add: Validate_def Let_def split: outcome.split)

text \<open>
  Claim C1 says that \<^verbatim>\<open>Validate\<close> returns no error for a constructed value that passes
  both checks. On the value that \<^verbatim>\<open>NewIBAN\<close> returns for a valid British code both checks
  return nil, and \<^verbatim>\<open>Validate\<close> returns an error whose text is empty.
\<close>

theorem Validate_error_on_valid_IBAN:
  "NewIBAN ''GB82 WEST 1234 5698 7654 32'' = Returns (Some \<lparr>code = ''GB82WEST12345698765432'',
      printCode = ''GB82 WEST 1234 5698 7654 32'', countryCode = ''GB'', checkDigits = ''82'',
      countrySettings = Some \<lparr>Length = 22, Format = ''U04F06F08'', Sepa = True\<rparr>,
      bban = ''WEST12345698765432''\<rparr>, None)
   \<and> validateBban \<lparr>code = ''GB82WEST12345698765432'',
      printCode = ''GB82 WEST 1234 5698 7654 32'', countryCode = ''GB'', checkDigits = ''82'',
      countrySettings = Some \<lparr>Length = 22, Format = ''U04F06F08'', Sepa = True\<rparr>,
      bban = ''WEST12345698765432''\<rparr> = Returns None
   \<and> validateCheckDigits \<lparr>code = ''GB82WEST12345698765432'',
      printCode = ''GB82 WEST 1234 5698 7654 32'', countryCode = ''GB'', checkDigits = ''82'',
      countrySettings = Some \<lparr>Length = 22, Format = ''U04F06F08'', Sepa = True\<rparr>,
      bban = ''WEST12345698765432''\<rparr> = Returns None
   \<and> Validate \<lparr>code = ''GB82WEST12345698765432'',
      printCode = ''GB82 WEST 1234 5698 7654 32'', countryCode = ''GB'', checkDigits = ''82'',
      countrySettings = Some \<lparr>Length = 22, Format = ''U04F06F08'', Sepa = True\<rparr>,
      bban = ''WEST12345698765432''\<rparr> = Returns (Some [])"
  by code_simp

end
